theory Spec2Isabelle
  imports Complex_Main
begin

section \<open>The expression interpreter of \<^verbatim>\<open>parser.py\<close>\<close>

text \<open>
  The source is one Python module: a hand-written scanner (\<^verbatim>\<open>Lexer\<close>), a
  recursive-descent evaluator that pulls one token at a time from it (\<^verbatim>\<open>Parser\<close>),
  and the entry point \<^verbatim>\<open>evaluate\<close>. The embedding below follows it function by
  function.

  Modelling conventions.
  \<^item> Exceptions are values of the type \<open>error\<close>; every function that can raise returns
    \<open>error + 'a\<close>, with \<open>Inl\<close> for the exception.
  \<^item> Mutation of the lexer and of the parser is explicit state passing.
  \<^item> A Python \<^verbatim>\<open>str\<close> is a list of \<open>char\<close>; a \<open>char\<close> stands for the code point
    of the same number (0 to 255), and the character classes are Python's on these
    code points.
  \<^item> A Python \<^verbatim>\<open>float\<close> is a value of the type \<open>pyfloat\<close>: a real number, one of
    the two infinities, or the not-a-number value. The special cases and the exceptions
    of the built-in operations are those of CPython. A real result is turned into a
    float by \<open>to_float\<close>, which maps what lies at or beyond the binary64 overflow
    threshold to an infinity and what lies at or below half the least positive float
    to zero, and leaves every other real as it is: rounding inside the range is not
    modelled, so the model computes what the interpreter computes wherever every
    intermediate result is representable (as in all the concrete inputs evaluated
    below). The sign of a zero is not modelled.
  \<^item> The interpreter's recursion limit is not modelled.
\<close>

subsection \<open>Errors\<close>

text \<open>
  \<open>InvalidCharacter l c\<close> is \<^verbatim>\<open>Exception('Invalid character at line l, column c')\<close>
  of \<^verbatim>\<open>Lexer.error\<close>, \<open>InvalidSyntax\<close> is \<^verbatim>\<open>Exception('Invalid syntax')\<close> of
  \<^verbatim>\<open>Parser.error\<close>, \<open>DivisionByZero\<close> is \<^verbatim>\<open>Exception('Division by zero')\<close> raised
  by \<^verbatim>\<open>Parser.term\<close>. The other three are raised by Python's built-in operations.
\<close>

datatype error =
    InvalidCharacter int int
  | InvalidSyntax
  | DivisionByZero
  | ZeroDivisionError
  | ValueError
  | OverflowError

definition and_then :: "'e + 'a \<Rightarrow> ('a \<Rightarrow> 'e + 'b) \<Rightarrow> 'e + 'b" where
  "and_then m f = (case m of Inl e \<Rightarrow> Inl e | Inr x \<Rightarrow> f x)"

subsection \<open>Floats and the built-in float operations\<close>

datatype pyfloat = Finite real | PosInf | NegInf | NaN

text \<open>Rounding to the nearest float sends a real of magnitude \<open>2 ^ 1024 - 2 ^ 970\<close>
  or more to an infinity and a real of magnitude \<open>1 / 2 ^ 1075\<close> or less to zero.\<close>

definition overflow_bound :: real where
  "overflow_bound = 2 ^ 1024 - 2 ^ 970"

definition underflow_bound :: real where
  "underflow_bound = 1 / 2 ^ 1075"

definition to_float :: "real \<Rightarrow> pyfloat" where
  "to_float x =
     (if overflow_bound \<le> x then PosInf
      else if x \<le> - overflow_bound then NegInf
      else if \<bar>x\<bar> \<le> underflow_bound then Finite 0
      else Finite x)"

text \<open>Unary minus, \<open>+\<close>, \<open>-\<close> and \<open>*\<close> raise nothing.\<close>

fun float_neg :: "pyfloat \<Rightarrow> pyfloat" where
  "float_neg (Finite x) = Finite (- x)"
| "float_neg PosInf = NegInf"
| "float_neg NegInf = PosInf"
| "float_neg NaN = NaN"

fun float_add :: "pyfloat \<Rightarrow> pyfloat \<Rightarrow> pyfloat" where
  "float_add (Finite x) (Finite y) = to_float (x + y)"
| "float_add NaN b = NaN"
| "float_add a NaN = NaN"
| "float_add PosInf NegInf = NaN"
| "float_add NegInf PosInf = NaN"
| "float_add PosInf b = PosInf"
| "float_add a PosInf = PosInf"
| "float_add NegInf b = NegInf"
| "float_add a NegInf = NegInf"

definition float_sub :: "pyfloat \<Rightarrow> pyfloat \<Rightarrow> pyfloat" where
  "float_sub a b = float_add a (float_neg b)"

fun float_mul :: "pyfloat \<Rightarrow> pyfloat \<Rightarrow> pyfloat" where
  "float_mul (Finite x) (Finite y) = to_float (x * y)"
| "float_mul NaN b = NaN"
| "float_mul a NaN = NaN"
| "float_mul (Finite x) PosInf = (if x = 0 then NaN else if 0 < x then PosInf else NegInf)"
| "float_mul (Finite x) NegInf = (if x = 0 then NaN else if 0 < x then NegInf else PosInf)"
| "float_mul PosInf (Finite y) = (if y = 0 then NaN else if 0 < y then PosInf else NegInf)"
| "float_mul NegInf (Finite y) = (if y = 0 then NaN else if 0 < y then NegInf else PosInf)"
| "float_mul PosInf PosInf = PosInf"
| "float_mul PosInf NegInf = NegInf"
| "float_mul NegInf PosInf = NegInf"
| "float_mul NegInf NegInf = PosInf"

text \<open>The comparisons: the not-a-number value is neither equal to, nor less than, nor
  greater than anything.\<close>

definition float_eq :: "pyfloat \<Rightarrow> pyfloat \<Rightarrow> bool" where
  "float_eq a b \<longleftrightarrow> a = b \<and> a \<noteq> NaN"

fun float_lt :: "pyfloat \<Rightarrow> pyfloat \<Rightarrow> bool" where
  "float_lt (Finite x) (Finite y) = (x < y)"
| "float_lt NaN b = False"
| "float_lt a NaN = False"
| "float_lt a NegInf = False"
| "float_lt NegInf b = True"
| "float_lt PosInf b = False"
| "float_lt a PosInf = True"

definition float_le :: "pyfloat \<Rightarrow> pyfloat \<Rightarrow> bool" where
  "float_le a b \<longleftrightarrow> float_lt a b \<or> float_eq a b"

text \<open>\<^verbatim>\<open>/\<close> and \<^verbatim>\<open>%\<close> raise \<^verbatim>\<open>ZeroDivisionError\<close> when the right operand is zero,
  whatever the left one is, and nothing else. The result of \<^verbatim>\<open>%\<close> has the sign of
  the right operand.\<close>

fun float_truediv :: "pyfloat \<Rightarrow> pyfloat \<Rightarrow> error + pyfloat" where
  "float_truediv a (Finite y) =
     (if y = 0 then Inl ZeroDivisionError
      else Inr (case a of
                  Finite x \<Rightarrow> to_float (x / y)
                | PosInf \<Rightarrow> (if 0 < y then PosInf else NegInf)
                | NegInf \<Rightarrow> (if 0 < y then NegInf else PosInf)
                | NaN \<Rightarrow> NaN))"
| "float_truediv (Finite x) PosInf = Inr (Finite 0)"
| "float_truediv (Finite x) NegInf = Inr (Finite 0)"
| "float_truediv a b = Inr NaN"

fun float_mod :: "pyfloat \<Rightarrow> pyfloat \<Rightarrow> error + pyfloat" where
  "float_mod a (Finite y) =
     (if y = 0 then Inl ZeroDivisionError
      else Inr (case a of
                  Finite x \<Rightarrow> to_float (x - y * of_int \<lfloor>x / y\<rfloor>)
                | PosInf \<Rightarrow> NaN
                | NegInf \<Rightarrow> NaN
                | NaN \<Rightarrow> NaN))"
| "float_mod (Finite x) PosInf = Inr (if 0 \<le> x then Finite x else PosInf)"
| "float_mod (Finite x) NegInf = Inr (if x \<le> 0 then Finite x else NegInf)"
| "float_mod a b = Inr NaN"

text \<open>
  \<^verbatim>\<open>math.pow\<close>. When an operand is not finite the result is the one that the C
  standard gives and nothing is raised. On finite operands \<^verbatim>\<open>ValueError\<close> is raised for
  a zero base with a negative exponent and for a negative base with an exponent that is
  not an integer, and \<^verbatim>\<open>OverflowError\<close> when the power lies beyond the range of the
  floats.
\<close>

definition is_integral :: "real \<Rightarrow> bool" where
  "is_integral y \<longleftrightarrow> of_int \<lfloor>y\<rfloor> = y"

definition odd_integer :: "pyfloat \<Rightarrow> bool" where
  "odd_integer y = (case y of Finite v \<Rightarrow> is_integral v \<and> odd \<lfloor>v\<rfloor> | _ \<Rightarrow> False)"

definition real_power :: "real \<Rightarrow> real \<Rightarrow> real" where
  "real_power a b =
     (if is_integral b then
        (if 0 \<le> b then a ^ nat \<lfloor>b\<rfloor> else inverse (a ^ nat \<lfloor>- b\<rfloor>))
      else a powr b)"

fun math_pow :: "pyfloat \<Rightarrow> pyfloat \<Rightarrow> error + pyfloat" where
  "math_pow (Finite a) (Finite b) =
     (if a = 0 \<and> b < 0 then Inl ValueError
      else if a < 0 \<and> \<not> is_integral b then Inl ValueError
      else if overflow_bound \<le> \<bar>real_power a b\<bar> then Inl OverflowError
      else Inr (to_float (real_power a b)))"
| "math_pow NaN y = Inr (if y = Finite 0 then Finite 1 else NaN)"
| "math_pow x NaN = Inr (if x = Finite 1 then Finite 1 else NaN)"
| "math_pow PosInf y =
     Inr (if float_lt (Finite 0) y then PosInf
          else if y = Finite 0 then Finite 1 else Finite 0)"
| "math_pow NegInf y =
     Inr (if float_lt (Finite 0) y then (if odd_integer y then NegInf else PosInf)
          else if y = Finite 0 then Finite 1 else Finite 0)"
| "math_pow (Finite a) PosInf =
     Inr (if \<bar>a\<bar> = 1 then Finite 1 else if 1 < \<bar>a\<bar> then PosInf else Finite 0)"
| "math_pow (Finite a) NegInf =
     Inr (if \<bar>a\<bar> = 1 then Finite 1 else if \<bar>a\<bar> < 1 then PosInf else Finite 0)"

subsection \<open>Tokens\<close>

datatype TokenType =
    IF | THEN_KW | ELSE
  | PLUS | MINUS | MULTIPLY | DIVIDE | EXPONENTIATION | MODULUS
  | BITWISE_AND | BITWISE_OR
  | AND | OR | NOT
  | EQUAL | NOT_EQUAL | LESS | GREATER | LESS_EQUAL | GREATER_EQUAL
  | NUMBER | LPAREN | RPAREN | EOF

text \<open>\<open>THEN_KW\<close> is \<^verbatim>\<open>TokenType.THEN\<close>: the plain name is an infix operator of
  Isabelle/ML, which code generated from these definitions could not use.

  The \<^verbatim>\<open>value\<close> of a token: a float for a number, the operator or keyword text
  otherwise, \<^verbatim>\<open>None\<close> at the end of the input.\<close>

datatype token_value = FloatVal pyfloat | StrVal string | NoneVal

record Token =
  ttype :: TokenType
  tvalue :: token_value
  tline :: int
  tcolumn :: int

subsection \<open>Character classes\<close>

definition isspace :: "char \<Rightarrow> bool" where
  "isspace c \<longleftrightarrow> (of_char c :: nat) \<in> set [9, 10, 11, 12, 13, 28, 29, 30, 31, 32, 133, 160]"

definition is_ascii_digit :: "char \<Rightarrow> bool" where
  "is_ascii_digit c \<longleftrightarrow> 48 \<le> (of_char c :: nat) \<and> (of_char c :: nat) \<le> 57"

definition isdigit :: "char \<Rightarrow> bool" where
  "isdigit c \<longleftrightarrow> is_ascii_digit c \<or> (of_char c :: nat) \<in> set [178, 179, 185]"

definition isalpha :: "char \<Rightarrow> bool" where
  "isalpha c \<longleftrightarrow> (let n = (of_char c :: nat) in
     (65 \<le> n \<and> n \<le> 90) \<or> (97 \<le> n \<and> n \<le> 122) \<or> n \<in> set [170, 181, 186]
     \<or> (192 \<le> n \<and> n \<noteq> 215 \<and> n \<noteq> 247))"

definition isalnum :: "char \<Rightarrow> bool" where
  "isalnum c \<longleftrightarrow> isalpha c \<or> isdigit c \<or> (of_char c :: nat) \<in> set [188, 189, 190]"

text \<open>\<^verbatim>\<open>str.upper\<close>, character by character. Python maps three code points below 256
  (181, 223, 255) outside the 8-bit range or to two letters; they are left unchanged
  here, which makes no difference to the keyword lookup, the only use of the result
  that is not a keyword's own text.\<close>

definition upper_char :: "char \<Rightarrow> char" where
  "upper_char c = (let n = (of_char c :: nat) in
     if (97 \<le> n \<and> n \<le> 122) \<or> (224 \<le> n \<and> n \<le> 254 \<and> n \<noteq> 247)
     then char_of (n - 32) else c)"

definition upper :: "string \<Rightarrow> string" where
  "upper s = map upper_char s"

subsection \<open>The scanner\<close>

text \<open>\<^verbatim>\<open>current_char\<close> is always \<^verbatim>\<open>text[pos]\<close>, or \<^verbatim>\<open>None\<close> past the end, so it is a
  function of the other fields; the keyword table is a constant.\<close>

record Lexer =
  ltext :: string
  pos :: nat
  line :: int
  column :: int

definition current_char :: "Lexer \<Rightarrow> char option" where
  "current_char lx = (if pos lx < length (ltext lx) then Some (ltext lx ! pos lx) else None)"

definition Lexer_init :: "string \<Rightarrow> Lexer" where
  "Lexer_init t = \<lparr>ltext = t, pos = 0, line = 1, column = 1\<rparr>"

definition keyword_table :: "string \<Rightarrow> TokenType option" where
  "keyword_table = [''IF'' \<mapsto> IF, ''THEN'' \<mapsto> THEN_KW, ''ELSE'' \<mapsto> ELSE,
               ''AND'' \<mapsto> AND, ''OR'' \<mapsto> OR, ''NOT'' \<mapsto> NOT]"

definition lexer_error :: "Lexer \<Rightarrow> error" where
  "lexer_error lx = InvalidCharacter (line lx) (column lx)"

definition advance :: "Lexer \<Rightarrow> Lexer" where
  "advance lx =
     (let lx1 = (if current_char lx = Some (CHR 0x0A)
                 then lx\<lparr>line := line lx + 1, column := 0\<rparr> else lx)
      in lx1\<lparr>pos := pos lx1 + 1, column := column lx1 + 1\<rparr>)"

definition remaining :: "Lexer \<Rightarrow> nat" where
  "remaining lx = length (ltext lx) - pos lx"

lemma remaining_advance:
  "current_char lx = Some c \<Longrightarrow> remaining (advance lx) < remaining lx"
  by (auto simp: remaining_def advance_def current_char_def Let_def split: if_splits)

function skip_whitespace :: "Lexer \<Rightarrow> Lexer" where
  "skip_whitespace lx =
     (case current_char lx of
        None \<Rightarrow> lx
      | Some c \<Rightarrow> if isspace c then skip_whitespace (advance lx) else lx)"
  by pat_completeness auto
termination
  by (relation "measure remaining") (auto simp: remaining_advance)

declare skip_whitespace.simps [simp del]

function skip_comment_loop :: "Lexer \<Rightarrow> Lexer" where
  "skip_comment_loop lx =
     (case current_char lx of
        None \<Rightarrow> lx
      | Some c \<Rightarrow> if c \<noteq> CHR 0x0A then skip_comment_loop (advance lx) else lx)"
  by pat_completeness auto
termination
  by (relation "measure remaining") (auto simp: remaining_advance)

declare skip_comment_loop.simps [simp del]

definition skip_comment :: "Lexer \<Rightarrow> Lexer" where
  "skip_comment lx = advance (skip_comment_loop lx)"

text \<open>\<^verbatim>\<open>float(result)\<close> on the strings that \<^verbatim>\<open>Lexer.number\<close> builds: characters that
  satisfy \<^verbatim>\<open>isdigit\<close> and at most one point, with a digit on each side of it.\<close>

definition digit_val :: "char \<Rightarrow> nat" where
  "digit_val c = of_char c - 48"

definition digits_val :: "string \<Rightarrow> nat" where
  "digits_val s = foldl (\<lambda>a c. 10 * a + digit_val c) 0 s"

definition float_of_str :: "string \<Rightarrow> error + pyfloat" where
  "float_of_str s =
     (if list_all (\<lambda>c. is_ascii_digit c \<or> c = CHR ''.'') s then
        (let ip = takeWhile (\<lambda>c. c \<noteq> CHR ''.'') s;
             fp = drop 1 (dropWhile (\<lambda>c. c \<noteq> CHR ''.'') s)
         in Inr (to_float (real (digits_val ip) + real (digits_val fp) / 10 ^ length fp)))
      else Inl ValueError)"

function number_loop :: "Lexer \<Rightarrow> string \<Rightarrow> int \<Rightarrow> error + (string \<times> Lexer)" where
  "number_loop lx result decimal_point_count =
     (case current_char lx of
        None \<Rightarrow> Inr (result, lx)
      | Some c \<Rightarrow>
          if isdigit c \<or> c = CHR ''.'' then
            (if c = CHR ''.'' \<and> decimal_point_count + 1 > 1 then Inl (lexer_error lx)
             else number_loop (advance lx) (result @ [c])
                    (if c = CHR ''.'' then decimal_point_count + 1 else decimal_point_count))
          else Inr (result, lx))"
  by pat_completeness auto
termination
  by (relation "measure (\<lambda>(lx, r, d). remaining lx)") (auto simp: remaining_advance)

declare number_loop.simps [simp del]

definition number :: "Lexer \<Rightarrow> error + (Token \<times> Lexer)" where
  "number lx =
     and_then (number_loop lx [] 0) (\<lambda>(result, lx1).
       let result1 = (if take 1 result = ''.'' then CHR ''0'' # result else result);
           result2 = (if result1 \<noteq> [] \<and> last result1 = CHR ''.'' then result1 @ ''0''
                      else result1)
       in and_then (float_of_str result2) (\<lambda>v.
            Inr (\<lparr>ttype = NUMBER, tvalue = FloatVal v, tline = line lx1,
                  tcolumn = column lx1 - int (length result2)\<rparr>, lx1)))"

function id_loop :: "Lexer \<Rightarrow> string \<Rightarrow> string \<times> Lexer" where
  "id_loop lx result =
     (case current_char lx of
        None \<Rightarrow> (result, lx)
      | Some c \<Rightarrow>
          if isalnum c \<or> c = CHR ''_'' then id_loop (advance lx) (result @ [c])
          else (result, lx))"
  by pat_completeness auto
termination
  by (relation "measure (\<lambda>(lx, r). remaining lx)") (auto simp: remaining_advance)

declare id_loop.simps [simp del]

definition lexer_id :: "Lexer \<Rightarrow> error + (Token \<times> Lexer)" where
  "lexer_id lx =
     (case id_loop lx [] of (result, lx1) \<Rightarrow>
        (case keyword_table (upper result) of
           Some token_type \<Rightarrow>
             Inr (\<lparr>ttype = token_type, tvalue = StrVal (upper result), tline = line lx1,
                   tcolumn = column lx1 - int (length result)\<rparr>, lx1)
         | None \<Rightarrow> Inl (lexer_error lx1)))"

text \<open>A token of one character: \<^verbatim>\<open>self.advance(); return Token(t, s, self.line,
  self.column - 1)\<close>.\<close>

definition single :: "TokenType \<Rightarrow> string \<Rightarrow> Lexer \<Rightarrow> error + (Token \<times> Lexer)" where
  "single t s lx =
     (let lx1 = advance lx
      in Inr (\<lparr>ttype = t, tvalue = StrVal s, tline = line lx1, tcolumn = column lx1 - 1\<rparr>, lx1))"

text \<open>A token of two characters whose second is \<open>=\<close>; \<open>alt\<close> is what happens when the
  second character is something else: another token, or the lexical error.\<close>

definition double :: "TokenType \<Rightarrow> string \<Rightarrow> (Lexer \<Rightarrow> error + (Token \<times> Lexer)) \<Rightarrow> Lexer
    \<Rightarrow> error + (Token \<times> Lexer)" where
  "double t s alt lx =
     (let lx1 = advance lx in
      if current_char lx1 = Some (CHR ''='') then
        (let lx2 = advance lx1
         in Inr (\<lparr>ttype = t, tvalue = StrVal s, tline = line lx2, tcolumn = column lx2 - 2\<rparr>,
                 lx2))
      else alt lx1)"

definition one_char :: "TokenType \<Rightarrow> string \<Rightarrow> Lexer \<Rightarrow> error + (Token \<times> Lexer)" where
  "one_char t s lx1 =
     Inr (\<lparr>ttype = t, tvalue = StrVal s, tline = line lx1, tcolumn = column lx1 - 1\<rparr>, lx1)"

lemma remaining_skip_whitespace: "remaining (skip_whitespace lx) \<le> remaining lx"
proof (induction lx rule: skip_whitespace.induct)
  case (1 lx)
  show ?case
  proof (cases "current_char lx")
    case None
    then show ?thesis by (simp add: skip_whitespace.simps [of lx])
  next
    case (Some c)
    with 1 remaining_advance [OF Some] show ?thesis
      by (cases "isspace c") (auto simp: skip_whitespace.simps [of lx])
  qed
qed

lemma remaining_skip_whitespace_less:
  "current_char lx = Some c \<Longrightarrow> isspace c \<Longrightarrow> remaining (skip_whitespace lx) < remaining lx"
  using remaining_skip_whitespace [of "advance lx"] remaining_advance [of lx c]
  by (simp add: skip_whitespace.simps [of lx])

lemma remaining_advance_le: "remaining (advance lx) \<le> remaining lx"
  by (auto simp: remaining_def advance_def Let_def)

lemma remaining_skip_comment_loop: "remaining (skip_comment_loop lx) \<le> remaining lx"
proof (induction lx rule: skip_comment_loop.induct)
  case (1 lx)
  show ?case
  proof (cases "current_char lx")
    case None
    then show ?thesis by (simp add: skip_comment_loop.simps [of lx])
  next
    case (Some c)
    with 1 remaining_advance [OF Some] show ?thesis
      by (cases "c = CHR 0x0A") (auto simp: skip_comment_loop.simps [of lx])
  qed
qed

lemma remaining_skip_comment_less:
  "current_char lx = Some (CHR ''#'') \<Longrightarrow> remaining (skip_comment lx) < remaining lx"
  using remaining_skip_comment_loop [of "advance lx"] remaining_advance [of lx "CHR ''#''"]
    remaining_advance_le [of "skip_comment_loop (advance lx)"]
  by (simp add: skip_comment_def skip_comment_loop.simps [of lx])

function get_next_token :: "Lexer \<Rightarrow> error + (Token \<times> Lexer)" where
  "get_next_token lx =
     (case current_char lx of
        None \<Rightarrow> Inr (\<lparr>ttype = EOF, tvalue = NoneVal, tline = line lx, tcolumn = column lx\<rparr>, lx)
      | Some c \<Rightarrow>
          if isspace c then get_next_token (skip_whitespace lx)
          else if c = CHR ''#'' then get_next_token (skip_comment lx)
          else if isdigit c \<or> c = CHR ''.'' then number lx
          else if isalpha c then lexer_id lx
          else if c = CHR ''+'' then single PLUS ''+'' lx
          else if c = CHR ''-'' then single MINUS ''-'' lx
          else if c = CHR ''*'' then single MULTIPLY ''*'' lx
          else if c = CHR ''/'' then single DIVIDE ''/'' lx
          else if c = CHR ''^'' then single EXPONENTIATION ''^'' lx
          else if c = CHR ''%'' then single MODULUS ''%'' lx
          else if c = CHR ''&'' then single BITWISE_AND ''&'' lx
          else if c = CHR ''|'' then single BITWISE_OR ''|'' lx
          else if c = CHR ''('' then single LPAREN ''('' lx
          else if c = CHR '')'' then single RPAREN '')'' lx
          else if c = CHR ''='' then double EQUAL ''=='' (\<lambda>lx1. Inl (lexer_error lx1)) lx
          else if c = CHR ''!'' then double NOT_EQUAL ''!='' (\<lambda>lx1. Inl (lexer_error lx1)) lx
          else if c = CHR ''<'' then double LESS_EQUAL ''<='' (one_char LESS ''<'') lx
          else if c = CHR ''>'' then double GREATER_EQUAL ''>='' (one_char GREATER ''>'') lx
          else Inl (lexer_error lx))"
  by pat_completeness auto
termination
  by (relation "measure remaining")
     (auto simp: remaining_skip_whitespace_less remaining_skip_comment_less)

declare get_next_token.simps [simp del]

text \<open>Every token other than the end-of-input token consumes at least one character.\<close>

lemma remaining_number_loop:
  "number_loop lx r d = Inr (r', lx') \<Longrightarrow> remaining lx' \<le> remaining lx"
proof (induction lx r d rule: number_loop.induct)
  case (1 lx result dpc)
  show ?case
  proof (cases "current_char lx")
    case None
    with 1(2) show ?thesis by (simp add: number_loop.simps [of lx])
  next
    case (Some c)
    with 1 remaining_advance [OF Some] show ?thesis
      by (auto simp: number_loop.simps [of lx] split: if_splits)
  qed
qed

lemma remaining_number:
  assumes "number lx = Inr (tok, lx')" and "current_char lx = Some c"
    and "isdigit c \<or> c = CHR ''.''"
  shows "remaining lx' < remaining lx"
proof -
  from assms(1) obtain r where r: "number_loop lx [] 0 = Inr (r, lx')"
    by (auto simp: number_def and_then_def Let_def split: sum.splits prod.splits)
  with assms(2,3) have "number_loop (advance lx) [c] (if c = CHR ''.'' then 1 else 0) = Inr (r, lx')"
    by (auto simp: number_loop.simps [of lx] split: if_splits)
  from remaining_number_loop [OF this] remaining_advance [OF assms(2)] show ?thesis by simp
qed

lemma remaining_id_loop: "id_loop lx r = (r', lx') \<Longrightarrow> remaining lx' \<le> remaining lx"
proof (induction lx r rule: id_loop.induct)
  case (1 lx result)
  show ?case
  proof (cases "current_char lx")
    case None
    with 1(2) show ?thesis by (simp add: id_loop.simps [of lx])
  next
    case (Some c)
    with 1 remaining_advance [OF Some] show ?thesis
      by (auto simp: id_loop.simps [of lx] split: if_splits)
  qed
qed

lemma isalpha_isalnum: "isalpha c \<Longrightarrow> isalnum c"
  by (simp add: isalnum_def)

lemma remaining_lexer_id:
  assumes "lexer_id lx = Inr (tok, lx')" and "current_char lx = Some c" and "isalpha c"
  shows "remaining lx' < remaining lx"
proof -
  from assms(1) obtain r where r: "id_loop lx [] = (r, lx')"
    by (auto simp: lexer_id_def split: prod.splits option.splits)
  with assms(2,3) have "id_loop (advance lx) [c] = (r, lx')"
    by (auto simp: id_loop.simps [of lx] isalpha_isalnum)
  from remaining_id_loop [OF this] remaining_advance [OF assms(2)] show ?thesis by simp
qed

lemma remaining_single:
  "single t s lx = Inr (tok, lx') \<Longrightarrow> current_char lx = Some c \<Longrightarrow> remaining lx' < remaining lx"
  using remaining_advance [of lx c] by (auto simp: single_def Let_def)

lemma remaining_double:
  assumes "double t s alt lx = Inr (tok, lx')" and "current_char lx = Some c"
    and "\<And>lx1 tok1 lx2. alt lx1 = Inr (tok1, lx2) \<Longrightarrow> lx2 = lx1"
  shows "remaining lx' < remaining lx"
  using assms(1) remaining_advance [OF assms(2)] remaining_advance_le [of "advance lx"] assms(3)
  by (fastforce simp: double_def Let_def split: if_splits)

lemma remaining_get_next_token:
  "get_next_token lx = Inr (tok, lx') \<Longrightarrow>
     remaining lx' \<le> remaining lx \<and> (ttype tok \<noteq> EOF \<longrightarrow> remaining lx' < remaining lx)"
proof (induction lx rule: get_next_token.induct)
  case (1 lx)
  show ?case
  proof (cases "current_char lx")
    case None
    with 1(3) show ?thesis by (auto simp: get_next_token.simps [of lx])
  next
    case (Some c)
    note alts = remaining_double [where alt = "\<lambda>lx1. Inl (lexer_error lx1)", OF _ Some]
      remaining_double [where alt = "one_char LESS ''<''", OF _ Some]
      remaining_double [where alt = "one_char GREATER ''>''", OF _ Some]
    consider (sp) "isspace c" | (cm) "\<not> isspace c" "c = CHR ''#''"
      | (other) "\<not> isspace c" "c \<noteq> CHR ''#''" by blast
    then show ?thesis
    proof cases
      case sp
      with 1(1) [OF Some sp] 1(3) Some remaining_skip_whitespace_less [OF Some sp]
      show ?thesis by (simp add: get_next_token.simps [of lx])
    next
      case cm
      with 1(2) [OF Some cm(1) cm(2)] 1(3) Some remaining_skip_comment_less [of lx]
      show ?thesis by (simp add: get_next_token.simps [of lx])
    next
      case other
      have "remaining lx' < remaining lx"
        using 1(3) Some other
        by (auto simp: get_next_token.simps [of lx] one_char_def split: if_splits
            dest: remaining_number remaining_lexer_id remaining_single alts)
      then show ?thesis by simp
    qed
  qed
qed

subsection \<open>Values\<close>

text \<open>
  The running result of \<^verbatim>\<open>comparison\<close> and \<^verbatim>\<open>logical_expr\<close> is a float or a
  \<^verbatim>\<open>bool\<close>. In an arithmetic or ordering context Python reads \<^verbatim>\<open>True\<close> as 1 and
  \<^verbatim>\<open>False\<close> as 0; a float is true when it is not zero.
\<close>

datatype pyval = PyFloat pyfloat | PyBool bool

definition as_float :: "pyval \<Rightarrow> pyfloat" where
  "as_float v = (case v of PyFloat x \<Rightarrow> x | PyBool b \<Rightarrow> Finite (if b then 1 else 0))"

definition truthy :: "pyval \<Rightarrow> bool" where
  "truthy v = (case v of PyFloat x \<Rightarrow> x \<noteq> Finite 0 | PyBool b \<Rightarrow> b)"

subsection \<open>The recursive-descent evaluator\<close>

record Parser =
  lexer :: Lexer
  current_token :: Token

definition Parser_init :: "Lexer \<Rightarrow> error + Parser" where
  "Parser_init lx =
     and_then (get_next_token lx) (\<lambda>(tok, lx1). Inr \<lparr>lexer = lx1, current_token = tok\<rparr>)"

definition eat :: "TokenType \<Rightarrow> Parser \<Rightarrow> error + Parser" where
  "eat token_type p =
     (if ttype (current_token p) = token_type then
        and_then (get_next_token (lexer p)) (\<lambda>(tok, lx1). Inr (p\<lparr>lexer := lx1, current_token := tok\<rparr>))
      else Inl InvalidSyntax)"

text \<open>\<^verbatim>\<open>token.value\<close> of a \<open>NUMBER\<close> token, read as a float.\<close>

definition number_value :: "Token \<Rightarrow> pyfloat" where
  "number_value tok = (case tvalue tok of FloatVal v \<Rightarrow> v | _ \<Rightarrow> Finite 0)"

lemma and_then_cong [fundef_cong]:
  "m = m' \<Longrightarrow> (\<And>x. m' = Inr x \<Longrightarrow> f x = f' x) \<Longrightarrow> and_then m f = and_then m' f'"
  by (auto simp: and_then_def split: sum.splits)

function atom :: "Parser \<Rightarrow> error + (pyfloat \<times> Parser)"
  and factor :: "Parser \<Rightarrow> error + (pyfloat \<times> Parser)"
  and exponentiation :: "Parser \<Rightarrow> error + (pyfloat \<times> Parser)"
  and exponentiation_loop :: "pyfloat \<Rightarrow> Parser \<Rightarrow> error + (pyfloat \<times> Parser)"
  and term_prod :: "Parser \<Rightarrow> error + (pyfloat \<times> Parser)"
  and term_loop :: "pyfloat \<Rightarrow> Parser \<Rightarrow> error + (pyfloat \<times> Parser)"
  and expression :: "Parser \<Rightarrow> error + (pyfloat \<times> Parser)"
  and expression_loop :: "pyfloat \<Rightarrow> Parser \<Rightarrow> error + (pyfloat \<times> Parser)"
where
  "atom p =
     (let token = current_token p in
      if ttype token = NUMBER then
        and_then (eat NUMBER p) (\<lambda>p1. Inr (number_value token, p1))
      else if ttype token = LPAREN then
        and_then (eat LPAREN p) (\<lambda>p1.
        and_then (expression p1) (\<lambda>(result, p2).
        and_then (eat RPAREN p2) (\<lambda>p3. Inr (result, p3))))
      else Inl InvalidSyntax)"
| "factor p =
     (let token = current_token p in
      if ttype token = PLUS then
        and_then (eat PLUS p) (\<lambda>p1. factor p1)
      else if ttype token = MINUS then
        and_then (eat MINUS p) (\<lambda>p1.
        and_then (factor p1) (\<lambda>(v, p2). Inr (float_neg v, p2)))
      else exponentiation p)"
| "exponentiation p = and_then (atom p) (\<lambda>(result, p1). exponentiation_loop result p1)"
| "exponentiation_loop result p =
     (if ttype (current_token p) = EXPONENTIATION then
        and_then (eat EXPONENTIATION p) (\<lambda>p1.
        and_then (factor p1) (\<lambda>(v, p2).
        and_then (math_pow result v) (\<lambda>result1. exponentiation_loop result1 p2)))
      else Inr (result, p))"
| "term_prod p = and_then (factor p) (\<lambda>(result, p1). term_loop result p1)"
| "term_loop result p =
     (let token = current_token p in
      if ttype token = MULTIPLY then
        and_then (eat MULTIPLY p) (\<lambda>p1.
        and_then (factor p1) (\<lambda>(v, p2). term_loop (float_mul result v) p2))
      else if ttype token = DIVIDE then
        and_then (eat DIVIDE p) (\<lambda>p1.
        and_then (factor p1) (\<lambda>(divisor, p2).
          if float_eq divisor (Finite 0) then Inl DivisionByZero
          else and_then (float_truediv result divisor) (\<lambda>result1. term_loop result1 p2)))
      else if ttype token = MODULUS then
        and_then (eat MODULUS p) (\<lambda>p1.
        and_then (factor p1) (\<lambda>(v, p2).
        and_then (float_mod result v) (\<lambda>result1. term_loop result1 p2)))
      else Inr (result, p))"
| "expression p = and_then (term_prod p) (\<lambda>(result, p1). expression_loop result p1)"
| "expression_loop result p =
     (let token = current_token p in
      if ttype token = PLUS then
        and_then (eat PLUS p) (\<lambda>p1.
        and_then (term_prod p1) (\<lambda>(v, p2). expression_loop (float_add result v) p2))
      else if ttype token = MINUS then
        and_then (eat MINUS p) (\<lambda>p1.
        and_then (term_prod p1) (\<lambda>(v, p2). expression_loop (float_sub result v) p2))
      else Inr (result, p))"
  by pat_completeness auto

lemma and_then_Inr_iff: "and_then m f = Inr y \<longleftrightarrow> (\<exists>x. m = Inr x \<and> f x = Inr y)"
  by (cases m) (auto simp: and_then_def)

definition psize :: "Parser \<Rightarrow> nat" where
  "psize p = remaining (lexer p) + (if ttype (current_token p) = EOF then 0 else 1)"

lemma psize_eat: "eat t p = Inr p' \<Longrightarrow> t \<noteq> EOF \<Longrightarrow> psize p' < psize p"
  by (auto simp: eat_def psize_def and_then_def split: if_splits sum.splits prod.splits
      dest!: remaining_get_next_token)

abbreviation (input) parser_dom where
  "parser_dom \<equiv> atom_factor_exponentiation_exponentiation_loop_term_prod_term_loop_expression_expression_loop_dom"

lemma psize_dom:
  "parser_dom (Inl (Inl (Inl p1))) \<Longrightarrow> (\<forall>r p'. atom p1 = Inr (r, p') \<longrightarrow> psize p' < psize p1)"
  "parser_dom (Inl (Inl (Inr p2))) \<Longrightarrow> (\<forall>r p'. factor p2 = Inr (r, p') \<longrightarrow> psize p' < psize p2)"
  "parser_dom (Inl (Inr (Inl p3))) \<Longrightarrow> (\<forall>r p'. exponentiation p3 = Inr (r, p') \<longrightarrow> psize p' < psize p3)"
  "parser_dom (Inl (Inr (Inr (r4, p4)))) \<Longrightarrow> (\<forall>r p'. exponentiation_loop r4 p4 = Inr (r, p') \<longrightarrow> psize p' \<le> psize p4)"
  "parser_dom (Inr (Inl (Inl p5))) \<Longrightarrow> (\<forall>r p'. term_prod p5 = Inr (r, p') \<longrightarrow> psize p' < psize p5)"
  "parser_dom (Inr (Inl (Inr (r6, p6)))) \<Longrightarrow> (\<forall>r p'. term_loop r6 p6 = Inr (r, p') \<longrightarrow> psize p' \<le> psize p6)"
  "parser_dom (Inr (Inr (Inl p7))) \<Longrightarrow> (\<forall>r p'. expression p7 = Inr (r, p') \<longrightarrow> psize p' < psize p7)"
  "parser_dom (Inr (Inr (Inr (r8, p8)))) \<Longrightarrow> (\<forall>r p'. expression_loop r8 p8 = Inr (r, p') \<longrightarrow> psize p' \<le> psize p8)"
proof (induct rule: atom_factor_exponentiation_exponentiation_loop_term_prod_term_loop_expression_expression_loop.pinduct)
  case (1 p)
  then show ?case
    by (fastforce simp: atom.psimps Let_def and_then_Inr_iff split: if_splits
        dest: psize_eat)
next
  case (2 p)
  then show ?case
    by (fastforce simp: factor.psimps Let_def and_then_Inr_iff split: if_splits
        dest: psize_eat)
next
  case (3 p)
  then show ?case
    by (fastforce simp: exponentiation.psimps Let_def and_then_Inr_iff split: if_splits
        dest: psize_eat)
next
  case (4 result p)
  then show ?case
    by (fastforce simp: exponentiation_loop.psimps Let_def and_then_Inr_iff split: if_splits
        dest: psize_eat)
next
  case (5 p)
  then show ?case
    by (fastforce simp: term_prod.psimps Let_def and_then_Inr_iff split: if_splits
        dest: psize_eat)
next
  case (6 result p)
  then show ?case
    by (fastforce simp: term_loop.psimps Let_def and_then_Inr_iff split: if_splits
        dest: psize_eat)
next
  case (7 p)
  then show ?case
    by (fastforce simp: expression.psimps Let_def and_then_Inr_iff split: if_splits
        dest: psize_eat)
next
  case (8 result p)
  then show ?case
    by (fastforce simp: expression_loop.psimps Let_def and_then_Inr_iff split: if_splits
        dest: psize_eat)
qed

termination atom
proof (relation "inv_image (measure psize <*lex*> measure (\<lambda>n::nat. n))
    (case_sum
      (case_sum (case_sum (\<lambda>p. (p, 0)) (\<lambda>p. (p, 2))) (case_sum (\<lambda>p. (p, 1)) (\<lambda>(r, p). (p, 0))))
      (case_sum (case_sum (\<lambda>p. (p, 3)) (\<lambda>(r, p). (p, 0))) (case_sum (\<lambda>p. (p, 4)) (\<lambda>(r, p). (p, 0)))))",
    goal_cases)
  case 1
  show ?case by (intro wf_inv_image wf_lex_prod wf_measure)
qed (fastforce dest: psize_eat psize_dom [rule_format])+

declare atom.simps [simp del] factor.simps [simp del] exponentiation.simps [simp del]
  exponentiation_loop.simps [simp del] term_prod.simps [simp del] term_loop.simps [simp del]
  expression.simps [simp del] expression_loop.simps [simp del]

lemma psize_parser:
  "\<forall>r p'. atom p1 = Inr (r, p') \<longrightarrow> psize p' < psize p1"
  "\<forall>r p'. factor p2 = Inr (r, p') \<longrightarrow> psize p' < psize p2"
  "\<forall>r p'. exponentiation p3 = Inr (r, p') \<longrightarrow> psize p' < psize p3"
  "\<forall>r p'. exponentiation_loop r4 p4 = Inr (r, p') \<longrightarrow> psize p' \<le> psize p4"
  "\<forall>r p'. term_prod p5 = Inr (r, p') \<longrightarrow> psize p' < psize p5"
  "\<forall>r p'. term_loop r6 p6 = Inr (r, p') \<longrightarrow> psize p' \<le> psize p6"
  "\<forall>r p'. expression p7 = Inr (r, p') \<longrightarrow> psize p' < psize p7"
  "\<forall>r p'. expression_loop r8 p8 = Inr (r, p') \<longrightarrow> psize p' \<le> psize p8"
proof (induct rule: atom_factor_exponentiation_exponentiation_loop_term_prod_term_loop_expression_expression_loop.induct)
  case (1 p)
  then show ?case
    by (fastforce simp: atom.simps [of p] Let_def and_then_Inr_iff split: if_splits
        dest: psize_eat)
next
  case (2 p)
  then show ?case
    by (fastforce simp: factor.simps [of p] Let_def and_then_Inr_iff split: if_splits
        dest: psize_eat)
next
  case (3 p)
  then show ?case
    by (fastforce simp: exponentiation.simps [of p] Let_def and_then_Inr_iff split: if_splits
        dest: psize_eat)
next
  case (4 result p)
  then show ?case
    by (fastforce simp: exponentiation_loop.simps [of result p] Let_def and_then_Inr_iff split: if_splits
        dest: psize_eat)
next
  case (5 p)
  then show ?case
    by (fastforce simp: term_prod.simps [of p] Let_def and_then_Inr_iff split: if_splits
        dest: psize_eat)
next
  case (6 result p)
  then show ?case
    by (fastforce simp: term_loop.simps [of result p] Let_def and_then_Inr_iff split: if_splits
        dest: psize_eat)
next
  case (7 p)
  then show ?case
    by (fastforce simp: expression.simps [of p] Let_def and_then_Inr_iff split: if_splits
        dest: psize_eat)
next
  case (8 result p)
  then show ?case
    by (fastforce simp: expression_loop.simps [of result p] Let_def and_then_Inr_iff split: if_splits
        dest: psize_eat)
qed

lemmas psize_expression = psize_parser(7) [rule_format]

text \<open>Python's comparison operators between the running result and a float.\<close>

definition py_eq :: "pyval \<Rightarrow> pyfloat \<Rightarrow> pyval" where
  "py_eq a b = PyBool (float_eq (as_float a) b)"

definition py_ne :: "pyval \<Rightarrow> pyfloat \<Rightarrow> pyval" where
  "py_ne a b = PyBool (\<not> float_eq (as_float a) b)"

definition py_lt :: "pyval \<Rightarrow> pyfloat \<Rightarrow> pyval" where
  "py_lt a b = PyBool (float_lt (as_float a) b)"

definition py_gt :: "pyval \<Rightarrow> pyfloat \<Rightarrow> pyval" where
  "py_gt a b = PyBool (float_lt b (as_float a))"

definition py_le :: "pyval \<Rightarrow> pyfloat \<Rightarrow> pyval" where
  "py_le a b = PyBool (float_le (as_float a) b)"

definition py_ge :: "pyval \<Rightarrow> pyfloat \<Rightarrow> pyval" where
  "py_ge a b = PyBool (float_le b (as_float a))"

function comparison_loop :: "pyval \<Rightarrow> Parser \<Rightarrow> error + (pyval \<times> Parser)" where
  "comparison_loop result p =
     (let token = current_token p in
      if ttype token = EQUAL then
        and_then (eat EQUAL p) (\<lambda>p1.
        and_then (expression p1) (\<lambda>(v, p2). comparison_loop (py_eq result v) p2))
      else if ttype token = NOT_EQUAL then
        and_then (eat NOT_EQUAL p) (\<lambda>p1.
        and_then (expression p1) (\<lambda>(v, p2). comparison_loop (py_ne result v) p2))
      else if ttype token = LESS then
        and_then (eat LESS p) (\<lambda>p1.
        and_then (expression p1) (\<lambda>(v, p2). comparison_loop (py_lt result v) p2))
      else if ttype token = GREATER then
        and_then (eat GREATER p) (\<lambda>p1.
        and_then (expression p1) (\<lambda>(v, p2). comparison_loop (py_gt result v) p2))
      else if ttype token = LESS_EQUAL then
        and_then (eat LESS_EQUAL p) (\<lambda>p1.
        and_then (expression p1) (\<lambda>(v, p2). comparison_loop (py_le result v) p2))
      else if ttype token = GREATER_EQUAL then
        and_then (eat GREATER_EQUAL p) (\<lambda>p1.
        and_then (expression p1) (\<lambda>(v, p2). comparison_loop (py_ge result v) p2))
      else Inr (result, p))"
  by pat_completeness auto
termination
  by (relation "measure (\<lambda>(r, p). psize p)") (fastforce dest: psize_eat psize_expression)+

declare comparison_loop.simps [simp del]

definition comparison :: "Parser \<Rightarrow> error + (pyval \<times> Parser)" where
  "comparison p = and_then (expression p) (\<lambda>(result, p1). comparison_loop (PyFloat result) p1)"

lemma psize_comparison_loop:
  "\<forall>r' p'. comparison_loop r p = Inr (r', p') \<longrightarrow> psize p' \<le> psize p"
proof (induct r p rule: comparison_loop.induct)
  case (1 result p)
  then show ?case
    by (fastforce simp: comparison_loop.simps [of result p] Let_def and_then_Inr_iff
        split: if_splits dest: psize_eat psize_expression)
qed

lemma psize_comparison: "comparison p = Inr (r, p') \<Longrightarrow> psize p' < psize p"
  by (fastforce simp: comparison_def and_then_Inr_iff dest: psize_expression psize_comparison_loop [rule_format])

text \<open>\<^verbatim>\<open>result = result and self.comparison()\<close>: Python's \<^verbatim>\<open>and\<close> evaluates its right
  operand, here the call that parses it, only when the left one is true; \<^verbatim>\<open>or\<close> only
  when the left one is false. The value is the operand evaluated last.\<close>

function logical_loop :: "pyval \<Rightarrow> Parser \<Rightarrow> error + (pyval \<times> Parser)" where
  "logical_loop result p =
     (let token = current_token p in
      if ttype token = AND then
        and_then (eat AND p) (\<lambda>p1.
          if truthy result then
            and_then (comparison p1) (\<lambda>(v, p2). logical_loop v p2)
          else logical_loop result p1)
      else if ttype token = OR then
        and_then (eat OR p) (\<lambda>p1.
          if truthy result then logical_loop result p1
          else and_then (comparison p1) (\<lambda>(v, p2). logical_loop v p2))
      else Inr (result, p))"
  by pat_completeness auto
termination
  by (relation "measure (\<lambda>(r, p). psize p)") (fastforce dest: psize_eat psize_comparison)+

declare logical_loop.simps [simp del]

definition logical_expr :: "Parser \<Rightarrow> error + (pyval \<times> Parser)" where
  "logical_expr p = and_then (comparison p) (\<lambda>(result, p1). logical_loop result p1)"

definition if_expr :: "Parser \<Rightarrow> error + (pyfloat \<times> Parser)" where
  "if_expr p =
     and_then (eat IF p) (\<lambda>p1.
     and_then (logical_expr p1) (\<lambda>(condition, p2).
     and_then (eat THEN_KW p2) (\<lambda>p3.
     and_then (expression p3) (\<lambda>(true_value, p4).
     and_then (eat ELSE p4) (\<lambda>p5.
     and_then (expression p5) (\<lambda>(false_value, p6).
       Inr (if truthy condition then true_value else false_value, p6)))))))"

definition parse :: "Parser \<Rightarrow> error + (pyval \<times> Parser)" where
  "parse p =
     (if ttype (current_token p) = IF then
        and_then (if_expr p) (\<lambda>(v, p1). Inr (PyFloat v, p1))
      else logical_expr p)"

definition evaluate :: "string \<Rightarrow> error + pyval" where
  "evaluate text =
     and_then (Parser_init (Lexer_init text)) (\<lambda>parser.
     and_then (parse parser) (\<lambda>(v, p1). Inr v))"

subsection \<open>Evaluating the model on concrete inputs\<close>

lemma and_then_simps [simp]:
  "and_then (Inl e) f = Inl e" "and_then (Inr x) f = f x"
  by (simp_all add: and_then_def)

lemma and_then_weak_cong [cong]: "m = m' \<Longrightarrow> and_then m f = and_then m' f"
  by simp

lemmas char_class_defs = isspace_def is_ascii_digit_def isdigit_def isalpha_def isalnum_def
  upper_char_def upper_def

lemmas lexer_simps = current_char_def Lexer_init_def keyword_table_def lexer_error_def advance_def
  skip_whitespace.simps skip_comment_loop.simps skip_comment_def digit_val_def digits_val_def
  float_of_str_def number_loop.simps number_def id_loop.simps lexer_id_def single_def double_def
  one_char_def get_next_token.simps char_class_defs Let_def

lemmas parser_simps = Parser_init_def eat_def number_value_def atom.simps factor.simps
  exponentiation.simps exponentiation_loop.simps term_prod.simps term_loop.simps
  expression.simps expression_loop.simps comparison_loop.simps comparison_def
  logical_loop.simps logical_expr_def if_expr_def parse_def evaluate_def
  as_float_def truthy_def float_sub_def float_eq_def float_le_def odd_integer_def
  real_power_def
  py_eq_def py_ne_def py_lt_def py_gt_def py_le_def py_ge_def

lemma is_integral_simps [simp]:
  "is_integral 0" "is_integral 1" "is_integral (numeral n)" "is_integral (- numeral n)"
  by (simp_all add: is_integral_def)

lemma not_is_integral_half [simp]: "\<not> is_integral (1 / 2)"
proof
  assume "is_integral (1 / 2)"
  then have "(1 / 2 :: real) \<in> \<int>" by (simp add: is_integral_def)
  then obtain n :: int where "(1 / 2 :: real) = of_int n" by (rule Ints_cases)
  then have "(of_int (2 * n) :: real) = of_int 1" by simp
  then have "2 * n = 1" by (simp only: of_int_eq_iff)
  then show False by presburger
qed

lemma overflow_bound_large: "2 ^ 1000 < overflow_bound"
proof -
  have "(2::real) ^ 970 \<le> 2 ^ 1023" by (rule power_increasing) simp_all
  moreover have "(2::real) ^ 1024 = 2 * 2 ^ 1023" by (simp add: power_Suc [symmetric] del: power_Suc)
  moreover have "(2::real) ^ 1000 < 2 ^ 1023" by (rule power_strict_increasing) simp_all
  ultimately show ?thesis by (simp add: overflow_bound_def)
qed

lemma to_float_0 [simp]: "to_float 0 = Finite 0"
  using overflow_bound_large zero_less_power [of "2::real" 1000]
  by (simp add: to_float_def underflow_bound_def)

lemma underflow_bound_small: "underflow_bound < 1 / 2 ^ 1000"
proof -
  have "(2::real) ^ 1000 < 2 ^ 1075" by (rule power_strict_increasing) simp_all
  then show ?thesis by (simp add: underflow_bound_def field_simps)
qed

lemma to_float_mid:
  assumes "1 / 1024 \<le> \<bar>x\<bar>" and "\<bar>x\<bar> \<le> 1024"
  shows "to_float x = Finite x"
proof -
  have a: "(1024::real) < 2 ^ 1000"
  proof -
    have "(2::real) ^ 10 < 2 ^ 1000" by (rule power_strict_increasing) simp_all
    then show ?thesis by simp
  qed
  have b: "(1::real) / 2 ^ 1000 < 1 / 1024"
    using a by (simp add: field_simps)
  from assms a b overflow_bound_large underflow_bound_small show ?thesis
    by (auto simp: to_float_def)
qed

lemma overflow_bound_gt: "1024 < overflow_bound"
proof -
  have "(2::real) ^ 10 < 2 ^ 1000" by (rule power_strict_increasing) simp_all
  then have "(1024::real) < 2 ^ 1000" by simp
  with overflow_bound_large show ?thesis by simp
qed

lemmas float_simps = to_float_mid

lemma float_le_Finite: "float_le (Finite x) (Finite y) \<longleftrightarrow> x \<le> y"
  by (auto simp: float_le_def float_eq_def)

lemma is_integral_iff: "is_integral v \<longleftrightarrow> v \<in> \<int>"
  by (auto simp: is_integral_def Ints_def)

text \<open>The state of a parser on a one-line input \<open>t\<close> whose lexer stands at offset \<open>k\<close>
  and whose lookahead token, of type \<open>tt\<close> and value \<open>v\<close>, began in column \<open>c\<close>.\<close>

abbreviation (input) parser_at ::
  "string \<Rightarrow> nat \<Rightarrow> TokenType \<Rightarrow> token_value \<Rightarrow> int \<Rightarrow> Parser" where
  "parser_at t k tt v c \<equiv>
     \<lparr>lexer = \<lparr>ltext = t, pos = k, line = 1, column = int k + 1\<rparr>,
      current_token = \<lparr>ttype = tt, tvalue = v, tline = 1, tcolumn = c\<rparr>\<rparr>"

subsection \<open>A number token carries a float\<close>

text \<open>\<^verbatim>\<open>atom\<close> returns the \<^verbatim>\<open>value\<close> of a \<open>NUMBER\<close> token as a float. Every such
  token that the scanner produces carries one, so the default in \<open>number_value\<close> is
  never taken.\<close>

lemma keyword_table_not_NUMBER: "keyword_table s = Some t \<Longrightarrow> t \<noteq> NUMBER"
  by (auto simp: keyword_table_def split: if_splits)

lemma NUMBER_token_has_float:
  "get_next_token lx = Inr (tok, lx') \<Longrightarrow> ttype tok = NUMBER \<Longrightarrow> \<exists>v. tvalue tok = FloatVal v"
proof (induction lx rule: get_next_token.induct)
  case (1 lx)
  show ?case
  proof (cases "current_char lx")
    case None
    with 1(3,4) show ?thesis by (auto simp: get_next_token.simps [of lx])
  next
    case (Some c)
    consider (sp) "isspace c" | (cm) "\<not> isspace c" "c = CHR ''#''"
      | (other) "\<not> isspace c" "c \<noteq> CHR ''#''" by blast
    then show ?thesis
    proof cases
      case sp
      with 1(1) [OF Some sp] 1(3,4) Some show ?thesis
        by (simp add: get_next_token.simps [of lx])
    next
      case cm
      with 1(2) [OF Some cm(1) cm(2)] 1(3,4) Some show ?thesis
        by (simp add: get_next_token.simps [of lx])
    next
      case other
      with 1(3,4) Some show ?thesis
        by (auto simp: get_next_token.simps [of lx] number_def lexer_id_def single_def
            double_def one_char_def and_then_Inr_iff Let_def
            split: if_splits prod.splits option.splits dest: keyword_table_not_NUMBER)
    qed
  qed
qed

subsection \<open>The scanner only reads forwards\<close>

definition advanced :: "Lexer \<Rightarrow> Lexer \<Rightarrow> bool" where
  "advanced lx lx' \<longleftrightarrow> ltext lx' = ltext lx \<and> pos lx \<le> pos lx'"

lemma advanced_refl [simp]: "advanced lx lx"
  by (simp add: advanced_def)













subsection \<open>Text that the scanner has not reached does not matter\<close>

text \<open>\<open>extend rest lx\<close> is the lexer \<open>lx\<close> on the text of \<open>lx\<close> followed by \<open>rest\<close>.\<close>

definition extend :: "string \<Rightarrow> Lexer \<Rightarrow> Lexer" where
  "extend rest lx = lx\<lparr>ltext := ltext lx @ rest\<rparr>"

lemma extend_fields [simp]:
  "ltext (extend rest lx) = ltext lx @ rest" "pos (extend rest lx) = pos lx"
  "line (extend rest lx) = line lx" "column (extend rest lx) = column lx"
  by (simp_all add: extend_def)

lemma lexer_error_extend [simp]: "lexer_error (extend rest lx) = lexer_error lx"
  by (simp add: lexer_error_def)



lemma current_char_None_iff:
  "current_char lx = None \<Longrightarrow> length (ltext lx) \<le> pos lx"
  by (simp add: current_char_def split: if_splits)


lemma pos_advance [simp]: "pos (advance lx) = pos lx + 1"
  by (simp add: advance_def Let_def)

lemma ltext_advance [simp]: "ltext (advance lx) = ltext lx"
  by (simp add: advance_def Let_def)




subsection \<open>White space and more text after the input\<close>

text \<open>The lexer stands \<open>in_text\<close> when it has not passed the end by more than the
  one step that a comment takes at the end of the input.\<close>

definition in_text :: "Lexer \<Rightarrow> bool" where
  "in_text lx \<longleftrightarrow> pos lx \<le> length (ltext lx)"



lemma in_text_Lexer_init [simp]: "in_text (Lexer_init t)"
  by (simp add: in_text_def Lexer_init_def)




















subsection \<open>Tokens depend on the unread text only\<close>

definition unread_text :: "Lexer \<Rightarrow> string" where
  "unread_text lx = drop (pos lx) (ltext lx)"



















subsection \<open>The token after the end of the input\<close>









lemma unread_text_Lexer_init [simp]: "unread_text (Lexer_init t) = t"
  by (simp add: unread_text_def Lexer_init_def)


subsection \<open>The evaluator stops at the first token that continues nothing\<close>































section \<open>The claims\<close>

text \<open>
  C1. The claim: the complete input \<^verbatim>\<open>5 & 3\<close> fails with a syntax error, because no
  production consumes the \<open>BITWISE_AND\<close> token. The code: the scanner produces that
  token, no production consumes it, and \<^verbatim>\<open>parse\<close> returns the value of the leading
  operand with the token still the lookahead, without looking for the end of the input.
  So \<^verbatim>\<open>evaluate\<close> returns 5.0: neither the syntax error of the claim, which is also what
  the grammar in the docstring of the module makes of this input, nor 1, the bitwise
  result that the help text of the module advertises. \<^verbatim>\<open>5 | 3\<close> returns 5.0 in the
  same way.
\<close>

theorem bitwise_and_left_unconsumed:
  "Parser_init (Lexer_init ''5 & 3'') = Inr (parser_at ''5 & 3'' 1 NUMBER (FloatVal (Finite 5)) 1)
   \<and> parse (parser_at ''5 & 3'' 1 NUMBER (FloatVal (Finite 5)) 1)
       = Inr (PyFloat (Finite 5), parser_at ''5 & 3'' 3 BITWISE_AND (StrVal ''&'') 3)
   \<and> evaluate ''5 & 3'' = Inr (PyFloat (Finite 5))
   \<and> evaluate ''5 & 3'' \<noteq> Inl InvalidSyntax
   \<and> evaluate ''5 | 3'' = Inr (PyFloat (Finite 5))"
  using overflow_bound_gt by (simp add: lexer_simps parser_simps float_simps)



text \<open>
  C3. The claim: before an \<^verbatim>\<open>AND\<close> whose left side is false the right operand is still
  parsed, so \<^verbatim>\<open>1 > 2 AND (\<close> fails with a syntax error. The code: \<^verbatim>\<open>result and
  self.comparison()\<close> does not call \<^verbatim>\<open>comparison\<close> when \<^verbatim>\<open>result\<close> is false, so the
  operand is not parsed and the input evaluates to \<^verbatim>\<open>False\<close>; with a true left side
  the same operand is parsed and the error is raised. Skipping the operand leaves its
  tokens unread, which ends the loop: \<^verbatim>\<open>1 > 2 AND 1 < 2 OR 2 > 1\<close> evaluates to
  \<^verbatim>\<open>False\<close>. \<^verbatim>\<open>OR\<close> with a true left side behaves in the same way.
\<close>

theorem logical_and_skips_right_operand:
  "evaluate ''1 > 2 AND ('' = Inr (PyBool False)
   \<and> evaluate ''2 > 1 AND ('' = Inl InvalidSyntax
   \<and> evaluate ''2 > 1 OR ('' = Inr (PyBool True)
   \<and> evaluate ''1 > 2 OR ('' = Inl InvalidSyntax
   \<and> evaluate ''1 > 2 AND 1 < 2 OR 2 > 1'' = Inr (PyBool False)"
  using overflow_bound_gt by (simp add: lexer_simps parser_simps float_simps)

text \<open>
  C4, as stated: \<^verbatim>\<open>5 % 0\<close> propagates what the floating-point modulus yields, such as
  a not-a-number result, instead of failing. No value is returned: Python's float
  modulus raises on a zero divisor.
\<close>

theorem modulus_by_zero_counterexample: "\<not> (\<exists>v. evaluate ''5 % 0'' = Inr v)"
  using overflow_bound_gt by (simp add: lexer_simps parser_simps float_simps)

text \<open>
  C4, amended: \<^verbatim>\<open>term\<close> does not check the divisor of a modulus, so \<open>DivisionByZero\<close>,
  the error of \<^verbatim>\<open>term\<close> itself, is not raised; when the right operand evaluates to zero
  the float modulus raises \<^verbatim>\<open>ZeroDivisionError\<close>, which aborts the evaluation, whatever
  the left operand is (a number, an infinity or the not-a-number value). The input
  \<^verbatim>\<open>5 % 0\<close> fails with that error and returns no value.
\<close>

theorem modulus_by_zero_raises:
  "(\<forall>result p p1 p2.
      ttype (current_token p) = MODULUS \<and> eat MODULUS p = Inr p1
      \<and> factor p1 = Inr (Finite 0, p2)
      \<longrightarrow> term_loop result p = Inl ZeroDivisionError)
   \<and> evaluate ''5 % 0'' = Inl ZeroDivisionError
   \<and> evaluate ''5 % 0'' \<noteq> Inl DivisionByZero"
proof (intro conjI allI impI)
  fix result p p1 p2
  assume "ttype (current_token p) = MODULUS \<and> eat MODULUS p = Inr p1
      \<and> factor p1 = Inr (Finite 0, p2)"
  then show "term_loop result p = Inl ZeroDivisionError"
    by (simp add: term_loop.simps [of result p])
next
  show "evaluate ''5 % 0'' = Inl ZeroDivisionError"
    using overflow_bound_gt by (simp add: lexer_simps parser_simps float_simps)
next
  show "evaluate ''5 % 0'' \<noteq> Inl DivisionByZero"
    using overflow_bound_gt by (simp add: lexer_simps parser_simps float_simps)
qed

text \<open>C4, amended, at the input \<^verbatim>\<open>5 % 0\<close>.\<close>

theorem modulus_by_zero_raises_witness:
  "ttype (current_token (parser_at ''5 % 0'' 3 MODULUS (StrVal ''%'') 3)) = MODULUS
   \<and> eat MODULUS (parser_at ''5 % 0'' 3 MODULUS (StrVal ''%'') 3)
       = Inr (parser_at ''5 % 0'' 5 NUMBER (FloatVal (Finite 0)) 5)
   \<and> factor (parser_at ''5 % 0'' 5 NUMBER (FloatVal (Finite 0)) 5)
       = Inr (Finite 0, parser_at ''5 % 0'' 5 EOF NoneVal 6)
   \<and> term_loop (Finite 5) (parser_at ''5 % 0'' 3 MODULUS (StrVal ''%'') 3)
       = Inl ZeroDivisionError"
proof -
  have h: "ttype (current_token (parser_at ''5 % 0'' 3 MODULUS (StrVal ''%'') 3)) = MODULUS
   \<and> eat MODULUS (parser_at ''5 % 0'' 3 MODULUS (StrVal ''%'') 3)
       = Inr (parser_at ''5 % 0'' 5 NUMBER (FloatVal (Finite 0)) 5)
   \<and> factor (parser_at ''5 % 0'' 5 NUMBER (FloatVal (Finite 0)) 5)
       = Inr (Finite 0, parser_at ''5 % 0'' 5 EOF NoneVal 6)"
    using overflow_bound_gt by (simp add: lexer_simps parser_simps float_simps)
  from modulus_by_zero_raises [THEN conjunct1, rule_format, OF h] h
  show ?thesis by blast
qed

text \<open>
  C5, as stated: for a negative base with a fractional exponent, as in
  \<^verbatim>\<open>(-2) ^ 0.5\<close>, \<^verbatim>\<open>evaluate\<close> returns a not-a-number result rather than failing.
  No value is returned: \<^verbatim>\<open>math.pow\<close> raises outside its domain.
\<close>

theorem power_domain_counterexample: "\<not> (\<exists>v. evaluate ''(-2) ^ 0.5'' = Inr v)"
  using overflow_bound_gt by (simp add: lexer_simps parser_simps float_simps)

text \<open>
  C5, amended: \<^verbatim>\<open>exponentiation\<close> makes no domain check of its own, but \<^verbatim>\<open>math.pow\<close>
  does: for a base that is a negative number and an exponent that is a number but not
  an integer it raises \<^verbatim>\<open>ValueError\<close>, which aborts the evaluation. The input
  \<^verbatim>\<open>(-2) ^ 0.5\<close> fails with that error and returns no value. The operands are numbers
  here, not infinities: for the base minus infinity, which \<^verbatim>\<open>0 - 10^308*10\<close> evaluates to,
  \<^verbatim>\<open>math.pow\<close> raises nothing and the power with the exponent 0.5 is infinity.
\<close>

theorem power_domain_raises:
  "(\<forall>a p p1 v p2.
      ttype (current_token p) = EXPONENTIATION \<and> eat EXPONENTIATION p = Inr p1
      \<and> factor p1 = Inr (Finite v, p2) \<and> a < 0 \<and> v \<notin> \<int>
      \<longrightarrow> exponentiation_loop (Finite a) p = Inl ValueError)
   \<and> evaluate ''(-2) ^ 0.5'' = Inl ValueError
   \<and> evaluate ''(0 - 10^308*10) ^ 0.5'' = Inr (PyFloat PosInf)"
proof (intro conjI allI impI)
  fix a :: real and p p1 v p2
  assume "ttype (current_token p) = EXPONENTIATION \<and> eat EXPONENTIATION p = Inr p1
      \<and> factor p1 = Inr (Finite v, p2) \<and> a < 0 \<and> v \<notin> \<int>"
  then show "exponentiation_loop (Finite a) p = Inl ValueError"
    by (simp add: exponentiation_loop.simps [of "Finite a" p] is_integral_iff)
next
  show "evaluate ''(-2) ^ 0.5'' = Inl ValueError"
    using overflow_bound_gt by (simp add: lexer_simps parser_simps float_simps)
next
  show "evaluate ''(0 - 10^308*10) ^ 0.5'' = Inr (PyFloat PosInf)"
    by (simp add: lexer_simps parser_simps overflow_bound_def underflow_bound_def to_float_def)
qed

text \<open>C5, amended, at the input \<^verbatim>\<open>(-2) ^ 0.5\<close>: the base is -2, the exponent 1/2.\<close>

theorem power_domain_raises_witness:
  "ttype (current_token (parser_at ''(-2) ^ 0.5'' 6 EXPONENTIATION (StrVal ''^'') 6))
     = EXPONENTIATION
   \<and> eat EXPONENTIATION (parser_at ''(-2) ^ 0.5'' 6 EXPONENTIATION (StrVal ''^'') 6)
       = Inr (parser_at ''(-2) ^ 0.5'' 10 NUMBER (FloatVal (Finite (1 / 2))) 8)
   \<and> factor (parser_at ''(-2) ^ 0.5'' 10 NUMBER (FloatVal (Finite (1 / 2))) 8)
       = Inr (Finite (1 / 2), parser_at ''(-2) ^ 0.5'' 10 EOF NoneVal 11)
   \<and> (- 2 :: real) < 0 \<and> (1 / 2 :: real) \<notin> \<int>
   \<and> exponentiation_loop (Finite (- 2))
         (parser_at ''(-2) ^ 0.5'' 6 EXPONENTIATION (StrVal ''^'') 6)
       = Inl ValueError"
proof -
  have h: "ttype (current_token (parser_at ''(-2) ^ 0.5'' 6 EXPONENTIATION (StrVal ''^'') 6))
     = EXPONENTIATION
   \<and> eat EXPONENTIATION (parser_at ''(-2) ^ 0.5'' 6 EXPONENTIATION (StrVal ''^'') 6)
       = Inr (parser_at ''(-2) ^ 0.5'' 10 NUMBER (FloatVal (Finite (1 / 2))) 8)
   \<and> factor (parser_at ''(-2) ^ 0.5'' 10 NUMBER (FloatVal (Finite (1 / 2))) 8)
       = Inr (Finite (1 / 2), parser_at ''(-2) ^ 0.5'' 10 EOF NoneVal 11)
   \<and> (- 2 :: real) < 0 \<and> (1 / 2 :: real) \<notin> \<int>"
    using overflow_bound_gt not_is_integral_half
    by (simp add: lexer_simps parser_simps float_simps is_integral_iff [symmetric])
  from power_domain_raises [THEN conjunct1, rule_format, OF h] h
  show ?thesis by blast
qed

text \<open>
  C6. A comparison chain is folded from the left: at each comparison operator the
  running result, a float or already a \<^verbatim>\<open>bool\<close>, is replaced by the boolean outcome
  of comparing it, read as a number (a float as itself, \<^verbatim>\<open>True\<close> as 1, \<^verbatim>\<open>False\<close> as
  0), with the value of the next expression. So \<^verbatim>\<open>1 < 2 < 3\<close> is \<^verbatim>\<open>(1 < 2) < 3\<close>,
  that is \<^verbatim>\<open>True < 3\<close>, which is true; by the same rule \<^verbatim>\<open>3 > 2 > 1\<close> is
  \<^verbatim>\<open>True > 1\<close>, which is false, \<^verbatim>\<open>1 < 2 == 1\<close> is \<^verbatim>\<open>True == 1\<close>, which is true, and
  \<^verbatim>\<open>3 < 2 == 0\<close> is \<^verbatim>\<open>False == 0\<close>, which is true. A single comparison compares the
  two numbers: \<^verbatim>\<open>5 > 3\<close> is true and \<^verbatim>\<open>3 > 5\<close> is false. (The values are numbers
  here, not infinities or the not-a-number value.)
\<close>

theorem comparison_chains_on_running_result:
  "(\<forall>result a p p1 v p2.
      (case result of PyFloat x \<Rightarrow> x = Finite a | PyBool b \<Rightarrow> a = (if b then 1 else 0))
      \<and> ttype (current_token p) \<in> {EQUAL, NOT_EQUAL, LESS, GREATER, LESS_EQUAL, GREATER_EQUAL}
      \<and> eat (ttype (current_token p)) p = Inr p1 \<and> expression p1 = Inr (Finite v, p2)
      \<longrightarrow> comparison_loop result p =
           comparison_loop
             (let t = ttype (current_token p)
              in PyBool (if t = EQUAL then a = v else if t = NOT_EQUAL then a \<noteq> v
                         else if t = LESS then a < v else if t = GREATER then a > v
                         else if t = LESS_EQUAL then a \<le> v else a \<ge> v)) p2)
   \<and> evaluate ''5 > 3'' = Inr (PyBool True)
   \<and> evaluate ''3 > 5'' = Inr (PyBool False)
   \<and> evaluate ''1 < 2 < 3'' = Inr (PyBool True)
   \<and> evaluate ''3 > 2 > 1'' = Inr (PyBool False)
   \<and> evaluate ''1 < 2 == 1'' = Inr (PyBool True)
   \<and> evaluate ''3 < 2 == 0'' = Inr (PyBool True)"
proof (intro conjI allI impI)
  fix result and a :: real and p p1 v p2
  assume "(case result of PyFloat x \<Rightarrow> x = Finite a | PyBool b \<Rightarrow> a = (if b then 1 else 0))
      \<and> ttype (current_token p) \<in> {EQUAL, NOT_EQUAL, LESS, GREATER, LESS_EQUAL, GREATER_EQUAL}
      \<and> eat (ttype (current_token p)) p = Inr p1 \<and> expression p1 = Inr (Finite v, p2)"
  then have "as_float result = Finite a"
    and "ttype (current_token p) \<in> {EQUAL, NOT_EQUAL, LESS, GREATER, LESS_EQUAL, GREATER_EQUAL}"
    and "eat (ttype (current_token p)) p = Inr p1" and "expression p1 = Inr (Finite v, p2)"
    by (auto simp: as_float_def split: pyval.splits)
  then show "comparison_loop result p =
           comparison_loop
             (let t = ttype (current_token p)
              in PyBool (if t = EQUAL then a = v else if t = NOT_EQUAL then a \<noteq> v
                         else if t = LESS then a < v else if t = GREATER then a > v
                         else if t = LESS_EQUAL then a \<le> v else a \<ge> v)) p2"
    by (auto simp: comparison_loop.simps [of result p] Let_def float_eq_def float_le_Finite
        py_eq_def py_ne_def py_lt_def py_gt_def py_le_def py_ge_def)
qed (insert overflow_bound_gt, simp_all add: lexer_simps parser_simps float_simps)

text \<open>C6, at the input \<^verbatim>\<open>1 < 2 < 3\<close>. After the first operand the running result 1
  is replaced by \<^verbatim>\<open>True\<close>, the outcome of \<^verbatim>\<open>1 < 2\<close>; at the second \<open><\<close> the running
  result \<^verbatim>\<open>True\<close>, read as 1, is replaced by the outcome of \<^verbatim>\<open>1 < 3\<close>.\<close>

theorem comparison_chains_on_running_result_witness:
  "(ttype (current_token (parser_at ''1 < 2 < 3'' 3 LESS (StrVal ''<'') 3))
     \<in> {EQUAL, NOT_EQUAL, LESS, GREATER, LESS_EQUAL, GREATER_EQUAL}
    \<and> eat (ttype (current_token (parser_at ''1 < 2 < 3'' 3 LESS (StrVal ''<'') 3)))
         (parser_at ''1 < 2 < 3'' 3 LESS (StrVal ''<'') 3)
       = Inr (parser_at ''1 < 2 < 3'' 5 NUMBER (FloatVal (Finite 2)) 5)
    \<and> expression (parser_at ''1 < 2 < 3'' 5 NUMBER (FloatVal (Finite 2)) 5)
       = Inr (Finite 2, parser_at ''1 < 2 < 3'' 7 LESS (StrVal ''<'') 7)
    \<and> comparison_loop (PyFloat (Finite 1)) (parser_at ''1 < 2 < 3'' 3 LESS (StrVal ''<'') 3)
       = comparison_loop (PyBool True) (parser_at ''1 < 2 < 3'' 7 LESS (StrVal ''<'') 7))
   \<and> (eat (ttype (current_token (parser_at ''1 < 2 < 3'' 7 LESS (StrVal ''<'') 7)))
         (parser_at ''1 < 2 < 3'' 7 LESS (StrVal ''<'') 7)
       = Inr (parser_at ''1 < 2 < 3'' 9 NUMBER (FloatVal (Finite 3)) 9)
    \<and> expression (parser_at ''1 < 2 < 3'' 9 NUMBER (FloatVal (Finite 3)) 9)
       = Inr (Finite 3, parser_at ''1 < 2 < 3'' 9 EOF NoneVal 10)
    \<and> comparison_loop (PyBool True) (parser_at ''1 < 2 < 3'' 7 LESS (StrVal ''<'') 7)
       = comparison_loop (PyBool ((1::real) < 3)) (parser_at ''1 < 2 < 3'' 9 EOF NoneVal 10))"
proof -
  have h1: "(case PyFloat (Finite 1) of PyFloat x \<Rightarrow> x = Finite 1
             | PyBool b \<Rightarrow> (1::real) = (if b then 1 else 0))
    \<and> ttype (current_token (parser_at ''1 < 2 < 3'' 3 LESS (StrVal ''<'') 3))
     \<in> {EQUAL, NOT_EQUAL, LESS, GREATER, LESS_EQUAL, GREATER_EQUAL}
    \<and> eat (ttype (current_token (parser_at ''1 < 2 < 3'' 3 LESS (StrVal ''<'') 3)))
         (parser_at ''1 < 2 < 3'' 3 LESS (StrVal ''<'') 3)
       = Inr (parser_at ''1 < 2 < 3'' 5 NUMBER (FloatVal (Finite 2)) 5)
    \<and> expression (parser_at ''1 < 2 < 3'' 5 NUMBER (FloatVal (Finite 2)) 5)
       = Inr (Finite 2, parser_at ''1 < 2 < 3'' 7 LESS (StrVal ''<'') 7)"
    using overflow_bound_gt by (simp add: lexer_simps parser_simps float_simps)
  have h2: "(case PyBool True of PyFloat x \<Rightarrow> x = Finite 1
             | PyBool b \<Rightarrow> (1::real) = (if b then 1 else 0))
    \<and> ttype (current_token (parser_at ''1 < 2 < 3'' 7 LESS (StrVal ''<'') 7))
     \<in> {EQUAL, NOT_EQUAL, LESS, GREATER, LESS_EQUAL, GREATER_EQUAL}
    \<and> eat (ttype (current_token (parser_at ''1 < 2 < 3'' 7 LESS (StrVal ''<'') 7)))
         (parser_at ''1 < 2 < 3'' 7 LESS (StrVal ''<'') 7)
       = Inr (parser_at ''1 < 2 < 3'' 9 NUMBER (FloatVal (Finite 3)) 9)
    \<and> expression (parser_at ''1 < 2 < 3'' 9 NUMBER (FloatVal (Finite 3)) 9)
       = Inr (Finite 3, parser_at ''1 < 2 < 3'' 9 EOF NoneVal 10)"
    using overflow_bound_gt by (simp add: lexer_simps parser_simps float_simps)
  from comparison_chains_on_running_result [THEN conjunct1, rule_format, OF h1]
  have c1: "comparison_loop (PyFloat (Finite 1))
        (parser_at ''1 < 2 < 3'' 3 LESS (StrVal ''<'') 3)
       = comparison_loop (PyBool True) (parser_at ''1 < 2 < 3'' 7 LESS (StrVal ''<'') 7)"
    by simp
  from comparison_chains_on_running_result [THEN conjunct1, rule_format, OF h2]
  have c2: "comparison_loop (PyBool True) (parser_at ''1 < 2 < 3'' 7 LESS (StrVal ''<'') 7)
       = comparison_loop (PyBool ((1::real) < 3)) (parser_at ''1 < 2 < 3'' 9 EOF NoneVal 10)"
    by simp
  from h1 h2 c1 c2 show ?thesis by blast
qed

text \<open>
  C7. Division by a right-hand operand equal to zero is a fatal runtime error, raised
  before the division is performed: in \<^verbatim>\<open>term\<close>, when the lookahead is \<open>/\<close> and the
  right operand evaluates to zero, the loop fails with \<open>DivisionByZero\<close> whatever the
  running result is; the input \<^verbatim>\<open>5 / 0\<close> fails with that error and returns no value.
\<close>

theorem division_by_zero_fatal:
  "(\<forall>result p p1 p2.
      ttype (current_token p) = DIVIDE \<and> eat DIVIDE p = Inr p1
      \<and> factor p1 = Inr (Finite 0, p2)
      \<longrightarrow> term_loop result p = Inl DivisionByZero)
   \<and> evaluate ''5 / 0'' = Inl DivisionByZero"
proof (intro conjI allI impI)
  fix result p p1 p2
  assume "ttype (current_token p) = DIVIDE \<and> eat DIVIDE p = Inr p1
      \<and> factor p1 = Inr (Finite 0, p2)"
  then show "term_loop result p = Inl DivisionByZero"
    by (simp add: term_loop.simps [of result p] float_eq_def)
next
  show "evaluate ''5 / 0'' = Inl DivisionByZero"
    using overflow_bound_gt by (simp add: lexer_simps parser_simps float_simps)
qed

text \<open>C7, at the input \<^verbatim>\<open>5 / 0\<close>: after the left operand the lookahead is \<open>/\<close>, the
  right operand evaluates to 0, and the loop fails.\<close>

theorem division_by_zero_fatal_witness:
  "ttype (current_token (parser_at ''5 / 0'' 3 DIVIDE (StrVal ''/'') 3)) = DIVIDE
   \<and> eat DIVIDE (parser_at ''5 / 0'' 3 DIVIDE (StrVal ''/'') 3)
       = Inr (parser_at ''5 / 0'' 5 NUMBER (FloatVal (Finite 0)) 5)
   \<and> factor (parser_at ''5 / 0'' 5 NUMBER (FloatVal (Finite 0)) 5)
       = Inr (Finite 0, parser_at ''5 / 0'' 5 EOF NoneVal 6)
   \<and> term_loop (Finite 5) (parser_at ''5 / 0'' 3 DIVIDE (StrVal ''/'') 3)
       = Inl DivisionByZero"
proof -
  have h: "ttype (current_token (parser_at ''5 / 0'' 3 DIVIDE (StrVal ''/'') 3)) = DIVIDE
   \<and> eat DIVIDE (parser_at ''5 / 0'' 3 DIVIDE (StrVal ''/'') 3)
       = Inr (parser_at ''5 / 0'' 5 NUMBER (FloatVal (Finite 0)) 5)
   \<and> factor (parser_at ''5 / 0'' 5 NUMBER (FloatVal (Finite 0)) 5)
       = Inr (Finite 0, parser_at ''5 / 0'' 5 EOF NoneVal 6)"
    using overflow_bound_gt by (simp add: lexer_simps parser_simps float_simps)
  from division_by_zero_fatal [THEN conjunct1, rule_format, OF h] h
  show ?thesis by blast
qed

text \<open>
  C8. \<^verbatim>\<open>if_expr\<close> evaluates the condition, then the \<^verbatim>\<open>THEN\<close> branch, then the
  \<^verbatim>\<open>ELSE\<close> branch, whatever the condition is, and only then selects: an error in the
  \<^verbatim>\<open>THEN\<close> branch aborts the evaluation also when the condition is false, an error in
  the \<^verbatim>\<open>ELSE\<close> branch also when it is true, and when both branches have a value the
  result is that of the \<^verbatim>\<open>THEN\<close> branch for a true condition and that of the
  \<^verbatim>\<open>ELSE\<close> branch otherwise. \<^verbatim>\<open>IF 5 > 3 THEN 1 ELSE 0\<close> evaluates to 1 and
  \<^verbatim>\<open>IF 2 > 3 THEN 1 ELSE 0\<close> to 0.
\<close>

theorem if_expr_evaluates_both_branches:
  "(\<forall>p p1 condition p2 p3 true_value p4 p5.
      eat IF p = Inr p1 \<and> logical_expr p1 = Inr (condition, p2) \<and> eat THEN_KW p2 = Inr p3
      \<and> expression p3 = Inr (true_value, p4) \<and> eat ELSE p4 = Inr p5
      \<longrightarrow> if_expr p =
           (case expression p5 of
              Inl e \<Rightarrow> Inl e
            | Inr (false_value, p6) \<Rightarrow>
                Inr (if truthy condition then true_value else false_value, p6)))
   \<and> (\<forall>p p1 condition p2 p3 e.
      eat IF p = Inr p1 \<and> logical_expr p1 = Inr (condition, p2) \<and> eat THEN_KW p2 = Inr p3
      \<and> expression p3 = Inl e
      \<longrightarrow> if_expr p = Inl e)
   \<and> evaluate ''IF 5 > 3 THEN 1 ELSE 0'' = Inr (PyFloat (Finite 1))
   \<and> evaluate ''IF 2 > 3 THEN 1 ELSE 0'' = Inr (PyFloat (Finite 0))
   \<and> evaluate ''IF 5 > 3 THEN 1 ELSE 1 / 0'' = Inl DivisionByZero
   \<and> evaluate ''IF 2 > 3 THEN 1 / 0 ELSE 0'' = Inl DivisionByZero"
proof (intro conjI allI impI)
  fix p p1 condition p2 p3 true_value p4 p5
  assume "eat IF p = Inr p1 \<and> logical_expr p1 = Inr (condition, p2) \<and> eat THEN_KW p2 = Inr p3
      \<and> expression p3 = Inr (true_value, p4) \<and> eat ELSE p4 = Inr p5"
  then show "if_expr p =
           (case expression p5 of
              Inl e \<Rightarrow> Inl e
            | Inr (false_value, p6) \<Rightarrow>
                Inr (if truthy condition then true_value else false_value, p6))"
    by (simp add: if_expr_def and_then_def split: sum.splits prod.splits)
next
  fix p p1 condition p2 p3 e
  assume "eat IF p = Inr p1 \<and> logical_expr p1 = Inr (condition, p2) \<and> eat THEN_KW p2 = Inr p3
      \<and> expression p3 = Inl e"
  then show "if_expr p = Inl e"
    by (simp add: if_expr_def)
qed (insert overflow_bound_gt, simp_all add: lexer_simps parser_simps float_simps)

text \<open>C8, at the inputs \<^verbatim>\<open>IF 5 > 3 THEN 1 ELSE 1 / 0\<close>, where the condition is true
  and the \<^verbatim>\<open>ELSE\<close> branch fails, and \<^verbatim>\<open>IF 2 > 3 THEN 1 / 0 ELSE 0\<close>, where the
  condition is false and the \<^verbatim>\<open>THEN\<close> branch fails.\<close>

theorem if_expr_evaluates_both_branches_witness:
  "(eat IF (parser_at ''IF 5 > 3 THEN 1 ELSE 1 / 0'' 2 IF (StrVal ''IF'') 1)
       = Inr (parser_at ''IF 5 > 3 THEN 1 ELSE 1 / 0'' 4 NUMBER (FloatVal (Finite 5)) 4)
    \<and> logical_expr (parser_at ''IF 5 > 3 THEN 1 ELSE 1 / 0'' 4 NUMBER (FloatVal (Finite 5)) 4)
       = Inr (PyBool True, parser_at ''IF 5 > 3 THEN 1 ELSE 1 / 0'' 13 THEN_KW (StrVal ''THEN'') 10)
    \<and> eat THEN_KW (parser_at ''IF 5 > 3 THEN 1 ELSE 1 / 0'' 13 THEN_KW (StrVal ''THEN'') 10)
       = Inr (parser_at ''IF 5 > 3 THEN 1 ELSE 1 / 0'' 15 NUMBER (FloatVal (Finite 1)) 15)
    \<and> expression (parser_at ''IF 5 > 3 THEN 1 ELSE 1 / 0'' 15 NUMBER (FloatVal (Finite 1)) 15)
       = Inr (Finite 1, parser_at ''IF 5 > 3 THEN 1 ELSE 1 / 0'' 20 ELSE (StrVal ''ELSE'') 17)
    \<and> eat ELSE (parser_at ''IF 5 > 3 THEN 1 ELSE 1 / 0'' 20 ELSE (StrVal ''ELSE'') 17)
       = Inr (parser_at ''IF 5 > 3 THEN 1 ELSE 1 / 0'' 22 NUMBER (FloatVal (Finite 1)) 22)
    \<and> expression (parser_at ''IF 5 > 3 THEN 1 ELSE 1 / 0'' 22 NUMBER (FloatVal (Finite 1)) 22)
       = Inl DivisionByZero
    \<and> if_expr (parser_at ''IF 5 > 3 THEN 1 ELSE 1 / 0'' 2 IF (StrVal ''IF'') 1)
       = Inl DivisionByZero)
   \<and> (eat IF (parser_at ''IF 2 > 3 THEN 1 / 0 ELSE 0'' 2 IF (StrVal ''IF'') 1)
       = Inr (parser_at ''IF 2 > 3 THEN 1 / 0 ELSE 0'' 4 NUMBER (FloatVal (Finite 2)) 4)
    \<and> logical_expr (parser_at ''IF 2 > 3 THEN 1 / 0 ELSE 0'' 4 NUMBER (FloatVal (Finite 2)) 4)
       = Inr (PyBool False, parser_at ''IF 2 > 3 THEN 1 / 0 ELSE 0'' 13 THEN_KW (StrVal ''THEN'') 10)
    \<and> eat THEN_KW (parser_at ''IF 2 > 3 THEN 1 / 0 ELSE 0'' 13 THEN_KW (StrVal ''THEN'') 10)
       = Inr (parser_at ''IF 2 > 3 THEN 1 / 0 ELSE 0'' 15 NUMBER (FloatVal (Finite 1)) 15)
    \<and> expression (parser_at ''IF 2 > 3 THEN 1 / 0 ELSE 0'' 15 NUMBER (FloatVal (Finite 1)) 15)
       = Inl DivisionByZero
    \<and> if_expr (parser_at ''IF 2 > 3 THEN 1 / 0 ELSE 0'' 2 IF (StrVal ''IF'') 1)
       = Inl DivisionByZero)"
proof -
  have h1: "eat IF (parser_at ''IF 5 > 3 THEN 1 ELSE 1 / 0'' 2 IF (StrVal ''IF'') 1)
       = Inr (parser_at ''IF 5 > 3 THEN 1 ELSE 1 / 0'' 4 NUMBER (FloatVal (Finite 5)) 4)
    \<and> logical_expr (parser_at ''IF 5 > 3 THEN 1 ELSE 1 / 0'' 4 NUMBER (FloatVal (Finite 5)) 4)
       = Inr (PyBool True, parser_at ''IF 5 > 3 THEN 1 ELSE 1 / 0'' 13 THEN_KW (StrVal ''THEN'') 10)
    \<and> eat THEN_KW (parser_at ''IF 5 > 3 THEN 1 ELSE 1 / 0'' 13 THEN_KW (StrVal ''THEN'') 10)
       = Inr (parser_at ''IF 5 > 3 THEN 1 ELSE 1 / 0'' 15 NUMBER (FloatVal (Finite 1)) 15)
    \<and> expression (parser_at ''IF 5 > 3 THEN 1 ELSE 1 / 0'' 15 NUMBER (FloatVal (Finite 1)) 15)
       = Inr (Finite 1, parser_at ''IF 5 > 3 THEN 1 ELSE 1 / 0'' 20 ELSE (StrVal ''ELSE'') 17)
    \<and> eat ELSE (parser_at ''IF 5 > 3 THEN 1 ELSE 1 / 0'' 20 ELSE (StrVal ''ELSE'') 17)
       = Inr (parser_at ''IF 5 > 3 THEN 1 ELSE 1 / 0'' 22 NUMBER (FloatVal (Finite 1)) 22)"
    using overflow_bound_gt by (simp add: lexer_simps parser_simps float_simps)
  have e1: "expression (parser_at ''IF 5 > 3 THEN 1 ELSE 1 / 0'' 22 NUMBER (FloatVal (Finite 1)) 22)
       = Inl DivisionByZero"
    using overflow_bound_gt by (simp add: lexer_simps parser_simps float_simps)
  have h2: "eat IF (parser_at ''IF 2 > 3 THEN 1 / 0 ELSE 0'' 2 IF (StrVal ''IF'') 1)
       = Inr (parser_at ''IF 2 > 3 THEN 1 / 0 ELSE 0'' 4 NUMBER (FloatVal (Finite 2)) 4)
    \<and> logical_expr (parser_at ''IF 2 > 3 THEN 1 / 0 ELSE 0'' 4 NUMBER (FloatVal (Finite 2)) 4)
       = Inr (PyBool False, parser_at ''IF 2 > 3 THEN 1 / 0 ELSE 0'' 13 THEN_KW (StrVal ''THEN'') 10)
    \<and> eat THEN_KW (parser_at ''IF 2 > 3 THEN 1 / 0 ELSE 0'' 13 THEN_KW (StrVal ''THEN'') 10)
       = Inr (parser_at ''IF 2 > 3 THEN 1 / 0 ELSE 0'' 15 NUMBER (FloatVal (Finite 1)) 15)
    \<and> expression (parser_at ''IF 2 > 3 THEN 1 / 0 ELSE 0'' 15 NUMBER (FloatVal (Finite 1)) 15)
       = Inl DivisionByZero"
    using overflow_bound_gt by (simp add: lexer_simps parser_simps float_simps)
  from if_expr_evaluates_both_branches [THEN conjunct1, rule_format, OF h1] e1
  have c1: "if_expr (parser_at ''IF 5 > 3 THEN 1 ELSE 1 / 0'' 2 IF (StrVal ''IF'') 1)
       = Inl DivisionByZero"
    by simp
  from if_expr_evaluates_both_branches [THEN conjunct2, THEN conjunct1, rule_format, OF h2]
  have c2: "if_expr (parser_at ''IF 2 > 3 THEN 1 / 0 ELSE 0'' 2 IF (StrVal ''IF'') 1)
       = Inl DivisionByZero" .
  from h1 e1 c1 h2 c2 show ?thesis by blast
qed

text \<open>
  C9. The right operand of \<open>^\<close> is parsed by \<^verbatim>\<open>factor\<close>, which takes a whole
  exponentiation, or a sign followed by one, before the power is computed: the operator
  groups to the right and a unary minus may follow it directly. \<^verbatim>\<open>2^3^2\<close> is
  \<^verbatim>\<open>2^(3^2)\<close>, that is 512 (grouping to the left, \<^verbatim>\<open>(2^3)^2\<close>, gives 64);
  \<^verbatim>\<open>5 + 2 ^ 3 ^ 2 - 1\<close> is 516 and \<^verbatim>\<open>2^-1\<close> is 0.5.
\<close>

theorem exponentiation_right_associative:
  "(\<forall>result p p1 v p2 r.
      ttype (current_token p) = EXPONENTIATION \<and> eat EXPONENTIATION p = Inr p1
      \<and> factor p1 = Inr (v, p2) \<and> math_pow result v = Inr r
      \<longrightarrow> exponentiation_loop result p = exponentiation_loop r p2)
   \<and> evaluate ''2^3^2'' = Inr (PyFloat (Finite 512))
   \<and> evaluate ''(2^3)^2'' = Inr (PyFloat (Finite 64))
   \<and> evaluate ''5 + 2 ^ 3 ^ 2 - 1'' = Inr (PyFloat (Finite 516))
   \<and> evaluate ''2^-1'' = Inr (PyFloat (Finite (1 / 2)))"
proof (intro conjI allI impI)
  fix result p p1 v p2 r
  assume "ttype (current_token p) = EXPONENTIATION \<and> eat EXPONENTIATION p = Inr p1
      \<and> factor p1 = Inr (v, p2) \<and> math_pow result v = Inr r"
  then show "exponentiation_loop result p = exponentiation_loop r p2"
    by (simp add: exponentiation_loop.simps [of result p])
qed (insert overflow_bound_gt, simp_all add: lexer_simps parser_simps float_simps)

text \<open>C9, at the input \<^verbatim>\<open>2^3^2\<close>, after the base 2: \<^verbatim>\<open>factor\<close> takes the whole of
  \<^verbatim>\<open>3^2\<close> as the exponent, 9, and the power is \<^verbatim>\<open>math.pow(2, 9)\<close>.\<close>

theorem exponentiation_right_associative_witness:
  "ttype (current_token (parser_at ''2^3^2'' 2 EXPONENTIATION (StrVal ''^'') 2))
     = EXPONENTIATION
   \<and> eat EXPONENTIATION (parser_at ''2^3^2'' 2 EXPONENTIATION (StrVal ''^'') 2)
       = Inr (parser_at ''2^3^2'' 3 NUMBER (FloatVal (Finite 3)) 3)
   \<and> factor (parser_at ''2^3^2'' 3 NUMBER (FloatVal (Finite 3)) 3)
       = Inr (Finite 9, parser_at ''2^3^2'' 5 EOF NoneVal 6)
   \<and> math_pow (Finite 2) (Finite 9) = Inr (Finite 512)
   \<and> exponentiation_loop (Finite 2) (parser_at ''2^3^2'' 2 EXPONENTIATION (StrVal ''^'') 2)
       = exponentiation_loop (Finite 512) (parser_at ''2^3^2'' 5 EOF NoneVal 6)"
proof -
  have h: "ttype (current_token (parser_at ''2^3^2'' 2 EXPONENTIATION (StrVal ''^'') 2))
     = EXPONENTIATION
   \<and> eat EXPONENTIATION (parser_at ''2^3^2'' 2 EXPONENTIATION (StrVal ''^'') 2)
       = Inr (parser_at ''2^3^2'' 3 NUMBER (FloatVal (Finite 3)) 3)
   \<and> factor (parser_at ''2^3^2'' 3 NUMBER (FloatVal (Finite 3)) 3)
       = Inr (Finite 9, parser_at ''2^3^2'' 5 EOF NoneVal 6)
   \<and> math_pow (Finite 2) (Finite 9) = Inr (Finite 512)"
    using overflow_bound_gt by (simp add: lexer_simps parser_simps float_simps)
  from exponentiation_right_associative [THEN conjunct1, rule_format, OF h] h
  show ?thesis by blast
qed

text \<open>
  C10. \<^verbatim>\<open>factor\<close> negates the value of the factor that follows the sign, and that
  factor takes a whole exponentiation: unary minus binds looser than \<open>^\<close>. The input
  \<^verbatim>\<open>-2^2\<close> evaluates to -4, that is \<^verbatim>\<open>-(2^2)\<close>, while \<^verbatim>\<open>(-2)^2\<close> is 4.
\<close>

theorem unary_minus_binds_looser_than_power:
  "(\<forall>p p1 v p2.
      ttype (current_token p) = MINUS \<and> eat MINUS p = Inr p1 \<and> factor p1 = Inr (v, p2)
      \<longrightarrow> factor p = Inr (float_neg v, p2))
   \<and> (\<forall>x. float_neg (Finite x) = Finite (- x))
   \<and> float_neg PosInf = NegInf \<and> float_neg NegInf = PosInf \<and> float_neg NaN = NaN
   \<and> evaluate ''-2^2'' = Inr (PyFloat (Finite (- 4)))
   \<and> evaluate ''(-2)^2'' = Inr (PyFloat (Finite 4))"
proof (intro conjI allI impI)
  fix p p1 v p2
  assume "ttype (current_token p) = MINUS \<and> eat MINUS p = Inr p1 \<and> factor p1 = Inr (v, p2)"
  then show "factor p = Inr (float_neg v, p2)"
    by (simp add: factor.simps [of p])
qed (insert overflow_bound_gt, simp_all add: lexer_simps parser_simps float_simps)

text \<open>C10, at the input \<^verbatim>\<open>-2^2\<close>: the factor after the sign is \<^verbatim>\<open>2^2\<close>, of value 4.\<close>

theorem unary_minus_binds_looser_than_power_witness:
  "ttype (current_token (parser_at ''-2^2'' 1 MINUS (StrVal ''-'') 1)) = MINUS
   \<and> eat MINUS (parser_at ''-2^2'' 1 MINUS (StrVal ''-'') 1)
       = Inr (parser_at ''-2^2'' 2 NUMBER (FloatVal (Finite 2)) 2)
   \<and> factor (parser_at ''-2^2'' 2 NUMBER (FloatVal (Finite 2)) 2)
       = Inr (Finite 4, parser_at ''-2^2'' 4 EOF NoneVal 5)
   \<and> factor (parser_at ''-2^2'' 1 MINUS (StrVal ''-'') 1)
       = Inr (Finite (- 4), parser_at ''-2^2'' 4 EOF NoneVal 5)"
proof -
  have h: "ttype (current_token (parser_at ''-2^2'' 1 MINUS (StrVal ''-'') 1)) = MINUS
   \<and> eat MINUS (parser_at ''-2^2'' 1 MINUS (StrVal ''-'') 1)
       = Inr (parser_at ''-2^2'' 2 NUMBER (FloatVal (Finite 2)) 2)
   \<and> factor (parser_at ''-2^2'' 2 NUMBER (FloatVal (Finite 2)) 2)
       = Inr (Finite 4, parser_at ''-2^2'' 4 EOF NoneVal 5)"
    using overflow_bound_gt by (simp add: lexer_simps parser_simps float_simps)
  from unary_minus_binds_looser_than_power [THEN conjunct1, rule_format, OF h]
  have "factor (parser_at ''-2^2'' 1 MINUS (StrVal ''-'') 1)
       = Inr (Finite (- 4), parser_at ''-2^2'' 4 EOF NoneVal 5)"
    by simp
  with h show ?thesis by blast
qed

end
